theory Spec2Isabelle
  imports Main
begin

section \<open>ClientDialog: the data model\<close>

text \<open>
  The component \<^verbatim>\<open>src/components/ClientDialog.tsx\<close> keeps a JavaScript object
  (\<^verbatim>\<open>formData: Partial<Client>\<close>) and writes it with computed keys, so the record is
  modelled as a finite-domain map from property names to JavaScript values. A property
  that is not in the map reads as \<^verbatim>\<open>undefined\<close>. \<open>JNum n\<close> is the Number whose value
  is the integer \<open>n\<close> (an identifier is the only number the component reads from the
  record); strings are lists of
  characters, one \<open>char\<close> per code unit in the Latin-1 range. The declaration of
  \<^verbatim>\<open>Client\<close> is not part of the sources, so no field is given a type beyond what
  the component itself does with it.
\<close>

datatype jsval =
    JUndefined
  | JNull
  | JBool bool
  | JNum int
  | JStr string
  | JObj "string \<rightharpoonup> jsval"

type_synonym jsobj = "string \<rightharpoonup> jsval"

text \<open>Property read \<^verbatim>\<open>o.k\<close> on an object.\<close>

definition get_prop :: "jsobj \<Rightarrow> string \<Rightarrow> jsval" where
  "get_prop ob k = (case ob k of None \<Rightarrow> JUndefined | Some v \<Rightarrow> v)"

text \<open>JavaScript truthiness (\<^verbatim>\<open>ToBoolean\<close>).\<close>

fun truthy :: "jsval \<Rightarrow> bool" where
  "truthy JUndefined = False"
| "truthy JNull = False"
| "truthy (JBool b) = b"
| "truthy (JNum n) = (n \<noteq> 0)"
| "truthy (JStr s) = (s \<noteq> [])"
| "truthy (JObj ob) = True"

datatype error = TypeError

subsection \<open>Strings\<close>

text \<open>
  \<^verbatim>\<open>String.prototype.trim\<close> strips white space and line terminators from both ends.
  In the Latin-1 range these are TAB, LF, VT, FF, CR, SPACE and NBSP.
\<close>

definition js_whitespace :: "char \<Rightarrow> bool" where
  "js_whitespace c = (of_char c \<in> {9, 10, 11, 12, 13, 32, 160 :: nat})"

definition trim :: "string \<Rightarrow> string" where
  "trim s = rev (dropWhile js_whitespace (rev (dropWhile js_whitespace s)))"

text \<open>\<^verbatim>\<open>Array.prototype.join\<close> on an array of strings.\<close>

fun join :: "string \<Rightarrow> string list \<Rightarrow> string" where
  "join sep [] = []"
| "join sep [x] = x"
| "join sep (x # y # ys) = x @ sep @ join sep (y # ys)"

text \<open>Decimal rendering of a number, as a template literal or \<^verbatim>\<open>toString()\<close> gives it.\<close>

definition digit :: "nat \<Rightarrow> char" where
  "digit d = ''0123456789'' ! d"

fun show_nat :: "nat \<Rightarrow> string" where
  "show_nat n = (if n < 10 then [digit n] else show_nat (n div 10) @ [digit (n mod 10)])"

declare show_nat.simps [simp del]

definition show_int :: "int \<Rightarrow> string" where
  "show_int i = (if i < 0 then CHR ''-'' # show_nat (nat (- i)) else show_nat (nat i))"

text \<open>
  \<^verbatim>\<open>v.toString()\<close>. The values of this model hold no functions, so an object that has
  an own property \<^verbatim>\<open>toString\<close> shadows the inherited method with something that cannot
  be called; \<^verbatim>\<open>undefined\<close> and \<^verbatim>\<open>null\<close> have no properties at all. A Number is
  printed in plain decimal, digit for digit, when it is a safe integer (of magnitude at
  most \<open>2\<^sup>5\<^sup>3 - 1\<close>). Beyond that range the digits come from the shortest-round-trip
  rendering of a double, which this model does not describe: the result is \<open>None\<close>
  there, and \<open>Some\<close> of what the call does everywhere else.
\<close>

definition safe_integer :: "int \<Rightarrow> bool" where
  "safe_integer n = (\<bar>n\<bar> \<le> 9007199254740991)"

fun js_toString :: "jsval \<Rightarrow> (error + string) option" where
  "js_toString JUndefined = Some (Inl TypeError)"
| "js_toString JNull = Some (Inl TypeError)"
| "js_toString (JBool b) = Some (Inr (if b then ''true'' else ''false''))"
| "js_toString (JNum n) = (if safe_integer n then Some (Inr (show_int n)) else None)"
| "js_toString (JStr s) = Some (Inr s)"
| "js_toString (JObj ob) =
     (case ob ''toString'' of
        None \<Rightarrow> Some (Inr ''[object Object]'')
      | Some _ \<Rightarrow> Some (Inl TypeError))"

text \<open>
  Object spread \<^verbatim>\<open>{...v}\<close>: the own enumerable properties of \<open>v\<close>. A string spreads to
  its characters under their indices; the other primitives spread to nothing.
\<close>

fun spread :: "jsval \<Rightarrow> jsobj" where
  "spread (JObj ob) = ob"
| "spread (JStr s) = map_of (zip (map show_nat [0 ..< length s]) (map (\<lambda>c. JStr [c]) s))"
| "spread _ = Map.empty"

text \<open>\<^verbatim>\<open>a || b\<close>\<close>

definition js_or :: "jsval \<Rightarrow> jsval \<Rightarrow> jsval" where
  "js_or a b = (if truthy a then a else b)"

subsection \<open>Props, state and what the component emits\<close>

datatype mode = Create | Edit

text \<open>
  The \<^verbatim>\<open>client\<close> prop is an object reference: the dependency array of an effect compares
  it by identity, so the model carries the address beside the fields.
\<close>

record client_ref =
  addr :: nat
  obj :: jsobj

record props =
  "open" :: bool
  client :: "client_ref option"
  mode :: mode

text \<open>
  Modelled from the spec: the declaration of \<^verbatim>\<open>ColumnMetadata\<close> in
  \<^verbatim>\<open>src/types/client\<close> is not part of the sources; the component reads the identifier
  and the column name of an entry.
\<close>

record column_metadata =
  col_id :: int
  column_name :: string

record state =
  formData :: jsobj
  customFieldsOpen :: bool
  documentsOpen :: bool
  tempClientId :: string
  dynamicColumns :: "column_metadata list"
  validationError :: string
  showValidationError :: bool

text \<open>The \<^verbatim>\<open>useState\<close> initial values.\<close>

definition initial_state :: state where
  "initial_state = \<lparr> formData = Map.empty, customFieldsOpen = False, documentsOpen = False,
     tempClientId = [], dynamicColumns = [], validationError = [],
     showValidationError = False \<rparr>"

text \<open>
  Calls that leave the component: the caller's callbacks, the metadata service, the
  console and the window.
\<close>

datatype action =
    OnSave jsobj
  | OnClose
  | GetColumnMetadata
  | ConsoleError string string
  | WindowOpen string
  | Uncaught error

section \<open>Validation and submit\<close>

text \<open>
  \<^verbatim>\<open>!formData.f?.trim()\<close>: optional chaining yields \<^verbatim>\<open>undefined\<close> on a nullish value,
  calls \<^verbatim>\<open>trim\<close> on a string, and throws on any other value, which has no such method.
\<close>

fun not_opt_trim :: "jsval \<Rightarrow> error + bool" where
  "not_opt_trim JUndefined = Inr True"
| "not_opt_trim JNull = Inr True"
| "not_opt_trim (JStr s) = Inr (\<not> truthy (JStr (trim s)))"
| "not_opt_trim _ = Inl TypeError"

text \<open>One \<^verbatim>\<open>if (!formData.f?.trim()) missingFields.push(label)\<close> statement.\<close>

definition check_field :: "jsobj \<Rightarrow> string \<Rightarrow> string \<Rightarrow> string list \<Rightarrow> error + string list" where
  "check_field fd f label missingFields =
     (case not_opt_trim (get_prop fd f) of
        Inl e \<Rightarrow> Inl e
      | Inr b \<Rightarrow> Inr (if b then missingFields @ [label] else missingFields))"

definition bind :: "error + 'a \<Rightarrow> ('a \<Rightarrow> error + 'b) \<Rightarrow> error + 'b" where
  "bind r f = (case r of Inl e \<Rightarrow> Inl e | Inr x \<Rightarrow> f x)"

text \<open>\<^verbatim>\<open>validateMandatoryFields\<close> returns its boolean together with the state it has set.\<close>

definition validateMandatoryFields :: "state \<Rightarrow> error + (bool \<times> state)" where
  "validateMandatoryFields st =
     bind (check_field (formData st) ''first_name'' ''First Name'' []) (\<lambda>m1.
     bind (check_field (formData st) ''last_name'' ''Last Name'' m1) (\<lambda>m2.
     bind (check_field (formData st) ''primary_email'' ''Primary Email'' m2) (\<lambda>m3.
     bind (check_field (formData st) ''primary_phone'' ''Primary Phone'' m3) (\<lambda>missingFields.
       if length missingFields > 0 then
         Inr (False, st \<lparr> validationError :=
                ''Please fill the following mandatory fields: '' @ join '', '' missingFields,
              showValidationError := True \<rparr>)
       else Inr (True, st)))))"

definition handleSubmit :: "props \<Rightarrow> state \<Rightarrow> error + (state \<times> action list)" where
  "handleSubmit p st =
     (if mode p = Create then
        bind (validateMandatoryFields st) (\<lambda>(ok, st').
          if \<not> ok then Inr (st', []) else Inr (st', [OnSave (formData st')]))
      else Inr (st, [OnSave (formData st)]))"

section \<open>Initialisation and the effects\<close>

text \<open>
  What the component reads from outside when it builds a temporary identifier:
  \<^verbatim>\<open>Date.now()\<close> and the base-36 rendering \<^verbatim>\<open>Math.random().toString(36)\<close>. A time
  value is a whole number of milliseconds of at most 8.64e15, so the template literal
  prints it in plain decimal.
\<close>

record env =
  now :: nat
  random36 :: string

text \<open>\<^verbatim>\<open>s.substr(start, len)\<close> for a start inside the string.\<close>

definition substr :: "string \<Rightarrow> nat \<Rightarrow> nat \<Rightarrow> string" where
  "substr s start len = take len (drop start s)"

definition tempId :: "env \<Rightarrow> string" where
  "tempId e = ''temp_'' @ show_nat (now e) @ ''_'' @ substr (random36 e) 2 9"

text \<open>The body of the first effect, whose dependencies are \<^verbatim>\<open>[client, mode]\<close>.\<close>

definition init_effect :: "props \<Rightarrow> env \<Rightarrow> state \<Rightarrow> state" where
  "init_effect p e st =
     (case client p of
        Some c \<Rightarrow>
          if mode p = Edit then st \<lparr> formData := obj c \<rparr>
          else st \<lparr> tempClientId := tempId e,
                    formData := [''case_status'' \<mapsto> JStr ''Active''] \<rparr>
      | None \<Rightarrow>
          st \<lparr> tempClientId := tempId e,
               formData := [''case_status'' \<mapsto> JStr ''Active''] \<rparr>)"

text \<open>
  The body of the second effect, whose dependency is \<^verbatim>\<open>[open]\<close>: it starts
  \<^verbatim>\<open>fetchDynamicColumns\<close>, which calls the metadata service and waits.
\<close>

definition fetch_effect :: "props \<Rightarrow> action list" where
  "fetch_effect p = (if open p then [GetColumnMetadata] else [])"

datatype 'a settled = Fulfilled 'a | Rejected string

text \<open>The rest of \<^verbatim>\<open>fetchDynamicColumns\<close>, once the promise has settled.\<close>

definition fetchDynamicColumns :: "column_metadata list settled \<Rightarrow> state \<Rightarrow> state \<times> action list" where
  "fetchDynamicColumns r st =
     (case r of
        Fulfilled columns \<Rightarrow> (st \<lparr> dynamicColumns := columns \<rparr>, [])
      | Rejected err \<Rightarrow> (st, [ConsoleError ''Error fetching dynamic columns:'' err]))"

section \<open>The handlers\<close>

record change_event =
  target_type :: string
  target_checked :: bool
  target_value :: string

definition handleChange :: "string \<Rightarrow> change_event \<Rightarrow> state \<Rightarrow> state" where
  "handleChange field event st =
     (let v = (if target_type event = ''checkbox'' then JBool (target_checked event)
               else JStr (target_value event))
      in st \<lparr> formData := (formData st)(field \<mapsto> v) \<rparr>)"

definition handleDynamicFieldChange :: "string \<Rightarrow> jsval \<Rightarrow> state \<Rightarrow> state" where
  "handleDynamicFieldChange columnName v st =
     st \<lparr> formData := (formData st)(columnName \<mapsto> v) \<rparr>"

definition handleCustomFieldsSave :: "jsobj \<Rightarrow> state \<Rightarrow> state" where
  "handleCustomFieldsSave fs st =
     st \<lparr> formData := (formData st)(''user_defined_fields'' \<mapsto>
            JObj (spread (js_or (get_prop (formData st) ''user_defined_fields'') (JObj Map.empty))
                  ++ spread (JObj fs))) \<rparr>"

text \<open>The documents dialog returns a \<^verbatim>\<open>Record<string, string>\<close>.\<close>

definition handleDocumentsSave :: "(string \<rightharpoonup> string) \<Rightarrow> state \<Rightarrow> state" where
  "handleDocumentsSave documents st =
     st \<lparr> formData := (formData st)(''client_documents'' \<mapsto>
            JObj (spread (js_or (get_prop (formData st) ''client_documents'') (JObj Map.empty))
                  ++ spread (JObj (map_option JStr \<circ> documents)))) \<rparr>"

definition handleDeleteCustomField :: "string \<Rightarrow> state \<Rightarrow> state" where
  "handleDeleteCustomField fieldName st =
     (let updatedFields = (spread (get_prop (formData st) ''user_defined_fields''))(fieldName := None)
      in st \<lparr> formData := (formData st)(''user_defined_fields'' \<mapsto> JObj updatedFields) \<rparr>)"

definition handleDeleteDocument :: "string \<Rightarrow> state \<Rightarrow> state" where
  "handleDeleteDocument docName st =
     (let updatedDocs = (spread (get_prop (formData st) ''client_documents''))(docName := None)
      in st \<lparr> formData := (formData st)(''client_documents'' \<mapsto> JObj updatedDocs) \<rparr>)"

definition handleCloseValidationError :: "state \<Rightarrow> state" where
  "handleCloseValidationError st = st \<lparr> showValidationError := False \<rparr>"

text \<open>\<^verbatim>\<open>client?.id\<close>\<close>

definition client_id :: "props \<Rightarrow> jsval" where
  "client_id p = (case client p of None \<Rightarrow> JUndefined | Some c \<Rightarrow> get_prop (obj c) ''id'')"

definition getClientIdForDocuments :: "props \<Rightarrow> state \<Rightarrow> (error + string) option" where
  "getClientIdForDocuments p st =
     (if mode p = Edit \<and> truthy (client_id p) then js_toString (client_id p)
      else Some (Inr (tempClientId st)))"

text \<open>The props that a render hands to \<^verbatim>\<open>DocumentsDialog\<close>.\<close>

record documents_dialog_props =
  dd_open :: bool
  dd_documents :: jsval
  dd_clientId :: string

definition render_DocumentsDialog :: "props \<Rightarrow> state \<Rightarrow> (error + documents_dialog_props) option" where
  "render_DocumentsDialog p st =
     map_option (\<lambda>r. bind r (\<lambda>cid.
       Inr \<lparr> dd_open = documentsOpen st,
             dd_documents = js_or (get_prop (formData st) ''client_documents'') (JObj Map.empty),
             dd_clientId = cid \<rparr>))
       (getClientIdForDocuments p st)"

section \<open>The component as a transition system\<close>

text \<open>
  A mounted component is its current props and its state. Each event is handled against
  the state of the latest render. After the first render both effects run; after a later
  render an effect runs when one of its dependencies has changed, the \<^verbatim>\<open>client\<close> object
  being compared by identity.
\<close>

record component =
  cur_props :: props
  cur_state :: state

datatype event =
    Rerender props env
  | Change string change_event
  | DynamicFieldChange string jsval
  | CustomFieldsSave jsobj
  | DocumentsSave "string \<rightharpoonup> string"
  | DeleteCustomField string
  | DeleteDocument string
  | SetCustomFieldsOpen bool
  | SetDocumentsOpen bool
  | Preview string
  | Submit
  | Cancel
  | CloseValidationError
  | ColumnsSettled "column_metadata list settled"

definition mount :: "props \<Rightarrow> env \<Rightarrow> component \<times> action list" where
  "mount p e = (\<lparr> cur_props = p, cur_state = init_effect p e initial_state \<rparr>, fetch_effect p)"

definition init_deps_changed :: "props \<Rightarrow> props \<Rightarrow> bool" where
  "init_deps_changed p p' =
     (map_option addr (client p) \<noteq> map_option addr (client p') \<or> mode p \<noteq> mode p')"

definition rerender :: "component \<Rightarrow> props \<Rightarrow> env \<Rightarrow> component \<times> action list" where
  "rerender c p' e =
     (\<lparr> cur_props = p',
        cur_state = (if init_deps_changed (cur_props c) p' then init_effect p' e (cur_state c)
                     else cur_state c) \<rparr>,
      if open (cur_props c) \<noteq> open p' then fetch_effect p' else [])"

definition with_state :: "component \<Rightarrow> state \<Rightarrow> component" where
  "with_state c s = c \<lparr> cur_state := s \<rparr>"

fun step :: "component \<Rightarrow> event \<Rightarrow> component \<times> action list" where
  "step c (Rerender p' e) = rerender c p' e"
| "step c (Change field ev) = (with_state c (handleChange field ev (cur_state c)), [])"
| "step c (DynamicFieldChange n v) = (with_state c (handleDynamicFieldChange n v (cur_state c)), [])"
| "step c (CustomFieldsSave fs) = (with_state c (handleCustomFieldsSave fs (cur_state c)), [])"
| "step c (DocumentsSave ds) = (with_state c (handleDocumentsSave ds (cur_state c)), [])"
| "step c (DeleteCustomField n) = (with_state c (handleDeleteCustomField n (cur_state c)), [])"
| "step c (DeleteDocument n) = (with_state c (handleDeleteDocument n (cur_state c)), [])"
| "step c (SetCustomFieldsOpen b) = (with_state c ((cur_state c) \<lparr> customFieldsOpen := b \<rparr>), [])"
| "step c (SetDocumentsOpen b) = (with_state c ((cur_state c) \<lparr> documentsOpen := b \<rparr>), [])"
| "step c (Preview url) = (c, [WindowOpen url])"
| "step c Submit =
     (case handleSubmit (cur_props c) (cur_state c) of
        Inl err \<Rightarrow> (c, [Uncaught err])
      | Inr (s, acts) \<Rightarrow> (with_state c s, acts))"
| "step c Cancel = (c, [OnClose])"
| "step c CloseValidationError = (with_state c (handleCloseValidationError (cur_state c)), [])"
| "step c (ColumnsSettled r) =
     (case fetchDynamicColumns r (cur_state c) of (s, acts) \<Rightarrow> (with_state c s, acts))"

text \<open>Running a list of events, collecting what is emitted.\<close>

fun run :: "component \<times> action list \<Rightarrow> event list \<Rightarrow> component \<times> action list" where
  "run ca [] = ca"
| "run (c, acts) (ev # evs) = (case step c ev of (c', acts') \<Rightarrow> run (c', acts @ acts') evs)"

section \<open>Vocabulary of the specification\<close>

text \<open>
  The four mandatory fields with their labels, in the order of the specification, and
  what it means for one of them to be empty or filled: a field is blank when it is absent,
  \<^verbatim>\<open>undefined\<close>, \<^verbatim>\<open>null\<close> or a string of white space only, and filled when it is a string
  with a character that is not white space.
\<close>

definition mandatory :: "(string \<times> string) list" where
  "mandatory = [(''first_name'', ''First Name''), (''last_name'', ''Last Name''),
     (''primary_email'', ''Primary Email''), (''primary_phone'', ''Primary Phone'')]"

definition blank :: "jsobj \<Rightarrow> string \<Rightarrow> bool" where
  "blank fd f =
     (case get_prop fd f of
        JUndefined \<Rightarrow> True
      | JNull \<Rightarrow> True
      | JStr s \<Rightarrow> list_all js_whitespace s
      | _ \<Rightarrow> False)"

definition filled :: "jsobj \<Rightarrow> string \<Rightarrow> bool" where
  "filled fd f =
     (case get_prop fd f of
        JStr s \<Rightarrow> list_ex (\<lambda>c. \<not> js_whitespace c) s
      | _ \<Rightarrow> False)"

definition missing_labels :: "jsobj \<Rightarrow> string list" where
  "missing_labels fd = map snd (filter (\<lambda>(f, l). blank fd f) mandatory)"

text \<open>
  A sub-map of the record as the specification sees it: the object under the key, and the
  empty map when the key is absent. The key is well-formed when it is absent or holds an
  object.
\<close>

definition sub_map :: "jsobj \<Rightarrow> string \<Rightarrow> jsobj" where
  "sub_map fd key = (case fd key of Some (JObj m) \<Rightarrow> m | _ \<Rightarrow> Map.empty)"

definition sub_map_ok :: "jsobj \<Rightarrow> string \<Rightarrow> bool" where
  "sub_map_ok fd key = (case fd key of None \<Rightarrow> True | Some (JObj m) \<Rightarrow> True | _ \<Rightarrow> False)"

text \<open>
  The additive merge of the specification: the returned map is laid over the existing
  sub-map, and nothing else in the state changes.
\<close>

definition additive_merge :: "string \<Rightarrow> jsobj \<Rightarrow> state \<Rightarrow> state" where
  "additive_merge key f st =
     st \<lparr> formData := (formData st)(key \<mapsto> JObj (sub_map (formData st) key ++ f)) \<rparr>"

definition is_rerender :: "event \<Rightarrow> bool" where
  "is_rerender ev = (case ev of Rerender _ _ \<Rightarrow> True | _ \<Rightarrow> False)"

section \<open>Concrete inputs\<close>

definition create_open :: props where
  "create_open = \<lparr> open = True, client = None, mode = Create \<rparr>"

definition create_closed :: props where
  "create_closed = \<lparr> open = False, client = None, mode = Create \<rparr>"

definition edit_no_client :: props where
  "edit_no_client = \<lparr> open = True, client = None, mode = Edit \<rparr>"

definition ann :: jsobj where
  "ann = [''id'' \<mapsto> JNum 7, ''first_name'' \<mapsto> JStr ''Ann'', ''is_active'' \<mapsto> JBool True]"

definition edit_ann :: props where
  "edit_ann = \<lparr> open = True, client = Some \<lparr> addr = 1, obj = ann \<rparr>, mode = Edit \<rparr>"

definition env1 :: env where
  "env1 = \<lparr> now = 1700000000000, random36 = ''0.4fzyo82mvyr'' \<rparr>"

definition env2 :: env where
  "env2 = \<lparr> now = 1700000004000, random36 = ''0.9x1k3j5h7g2'' \<rparr>"

definition env3 :: env where
  "env3 = \<lparr> now = 1700000009000, random36 = ''0.b7t2qw6n0pd'' \<rparr>"

definition partly_filled :: state where
  "partly_filled = initial_state \<lparr> formData :=
     [''case_status'' \<mapsto> JStr ''Active'', ''first_name'' \<mapsto> JStr ''Ann'',
      ''primary_email'' \<mapsto> JStr ''  ''] \<rparr>"

definition all_filled :: state where
  "all_filled = initial_state \<lparr> formData :=
     [''first_name'' \<mapsto> JStr ''Ann'', ''last_name'' \<mapsto> JStr '' Lee '',
      ''primary_email'' \<mapsto> JStr ''ann@example.org'', ''primary_phone'' \<mapsto> JStr ''555'',
      ''is_active'' \<mapsto> JBool False] \<rparr>"

definition some_column :: column_metadata where
  "some_column = \<lparr> col_id = 1, column_name = ''referral_source'' \<rparr>"

definition checkbox_on :: change_event where
  "checkbox_on = \<lparr> target_type = ''checkbox'', target_checked = True, target_value = ''on'' \<rparr>"

definition typed_text :: change_event where
  "typed_text = \<lparr> target_type = ''text'', target_checked = False, target_value = ''Lee'' \<rparr>"

definition with_fields :: state where
  "with_fields = initial_state \<lparr> formData :=
     [''case_status'' \<mapsto> JStr ''Active'',
      ''user_defined_fields'' \<mapsto> JObj [''court'' \<mapsto> JStr ''Kings'', ''judge'' \<mapsto> JStr ''Hale'']] \<rparr>"

section \<open>Properties\<close>

subsection \<open>Trimming and the single checks\<close>

lemma trim_Nil_iff: "trim s = [] \<longleftrightarrow> list_all js_whitespace s"
proof
  assume "trim s = []"
  then have all: "\<forall>x\<in>set (dropWhile js_whitespace s). js_whitespace x"
    by (simp add: trim_def)
  have "dropWhile js_whitespace s = []"
  proof (rule ccontr)
    assume ne: "dropWhile js_whitespace s \<noteq> []"
    then have "\<not> js_whitespace (hd (dropWhile js_whitespace s))"
      by (rule hd_dropWhile)
    moreover have "hd (dropWhile js_whitespace s) \<in> set (dropWhile js_whitespace s)"
      using ne by (rule hd_in_set)
    ultimately show False using all by blast
  qed
  then show "list_all js_whitespace s"
    by (simp add: list_all_iff)
next
  assume "list_all js_whitespace s"
  then have d: "dropWhile js_whitespace s = []"
    by (simp add: list_all_iff)
  show "trim s = []"
    unfolding trim_def d by simp
qed

lemma check_field_blank: "blank fd f \<Longrightarrow> check_field fd f l ms = Inr (ms @ [l])"
  by (auto simp: blank_def check_field_def trim_Nil_iff split: jsval.splits)

lemma check_field_filled: "filled fd f \<Longrightarrow> check_field fd f l ms = Inr ms"
  by (auto simp: filled_def check_field_def trim_Nil_iff list_all_iff list_ex_iff
      split: jsval.splits)

lemma filled_not_blank: "filled fd f \<Longrightarrow> \<not> blank fd f"
  by (auto simp: filled_def blank_def list_all_iff list_ex_iff split: jsval.splits)

lemma validate_typed:
  assumes "blank (formData st) ''first_name'' \<or> filled (formData st) ''first_name''"
    and "blank (formData st) ''last_name'' \<or> filled (formData st) ''last_name''"
    and "blank (formData st) ''primary_email'' \<or> filled (formData st) ''primary_email''"
    and "blank (formData st) ''primary_phone'' \<or> filled (formData st) ''primary_phone''"
  shows "validateMandatoryFields st =
     (if missing_labels (formData st) \<noteq> [] then
        Inr (False, st \<lparr> validationError :=
               ''Please fill the following mandatory fields: ''
                 @ join '', '' (missing_labels (formData st)),
             showValidationError := True \<rparr>)
      else Inr (True, st))"
  using assms
  by (auto simp: validateMandatoryFields_def bind_def missing_labels_def mandatory_def
      check_field_blank check_field_filled dest: filled_not_blank)

subsection \<open>Submit\<close>

text \<open>
  C1. A submit in create mode, on a record whose four mandatory fields are each blank or
  filled and of which at least one is blank, does not call the save callback (nothing is
  emitted) and sets one error message that names the labels of exactly the blank fields
  in the order First Name, Last Name, Primary Email, Primary Phone, and shows it.
\<close>

theorem create_submit_reports_missing_fields:
  assumes "mode p = Create"
    and "\<forall>f \<in> set (map fst mandatory). blank (formData st) f \<or> filled (formData st) f"
    and "missing_labels (formData st) \<noteq> []"
  shows "handleSubmit p st =
     Inr (st \<lparr> validationError :=
             ''Please fill the following mandatory fields: ''
               @ join '', '' (missing_labels (formData st)),
           showValidationError := True \<rparr>, [])"
proof -
  from assms(2) have
    "blank (formData st) ''first_name'' \<or> filled (formData st) ''first_name''"
    "blank (formData st) ''last_name'' \<or> filled (formData st) ''last_name''"
    "blank (formData st) ''primary_email'' \<or> filled (formData st) ''primary_email''"
    "blank (formData st) ''primary_phone'' \<or> filled (formData st) ''primary_phone''"
    by (simp_all add: mandatory_def)
  then have "validateMandatoryFields st =
     Inr (False, st \<lparr> validationError :=
               ''Please fill the following mandatory fields: ''
                 @ join '', '' (missing_labels (formData st)),
             showValidationError := True \<rparr>)"
    using assms(3) by (simp add: validate_typed)
  then show ?thesis
    using assms(1) by (simp add: handleSubmit_def bind_def)
qed

lemma partly_filled_fields:
  "filled (formData partly_filled) ''first_name''"
  "blank (formData partly_filled) ''last_name''"
  "blank (formData partly_filled) ''primary_email''"
  "blank (formData partly_filled) ''primary_phone''"
  by (simp_all add: partly_filled_def initial_state_def filled_def blank_def get_prop_def
      js_whitespace_def)

theorem create_submit_reports_missing_fields_witness:
  "handleSubmit create_open partly_filled =
     Inr (partly_filled \<lparr> validationError :=
            ''Please fill the following mandatory fields: Last Name, Primary Email, Primary Phone'',
          showValidationError := True \<rparr>, [])"
proof -
  have m: "mode create_open = Create"
    by (simp add: create_open_def)
  have t: "\<forall>f \<in> set (map fst mandatory).
             blank (formData partly_filled) f \<or> filled (formData partly_filled) f"
    by (simp add: mandatory_def partly_filled_fields)
  have l: "missing_labels (formData partly_filled) = [''Last Name'', ''Primary Email'', ''Primary Phone'']"
    using partly_filled_fields filled_not_blank [OF partly_filled_fields(1)]
    by (simp add: missing_labels_def mandatory_def)
  then have ne: "missing_labels (formData partly_filled) \<noteq> []"
    by simp
  show ?thesis
    using create_submit_reports_missing_fields [OF m t ne] by (simp add: l)
qed

text \<open>
  C2. A submit in create mode on a record whose four mandatory fields are all filled,
  whatever else the record holds, calls the save callback exactly once, with the held
  record, and changes nothing in the state.
\<close>

theorem create_submit_saves_once:
  assumes "mode p = Create"
    and "\<forall>f \<in> set (map fst mandatory). filled (formData st) f"
  shows "handleSubmit p st = Inr (st, [OnSave (formData st)])"
proof -
  from assms(2) have f:
    "filled (formData st) ''first_name''" "filled (formData st) ''last_name''"
    "filled (formData st) ''primary_email''" "filled (formData st) ''primary_phone''"
    by (simp_all add: mandatory_def)
  then have "missing_labels (formData st) = []"
    by (simp add: missing_labels_def mandatory_def filled_not_blank)
  then have "validateMandatoryFields st = Inr (True, st)"
    using f by (simp add: validate_typed)
  then show ?thesis
    using assms(1) by (simp add: handleSubmit_def bind_def)
qed

theorem create_submit_saves_once_witness:
  "handleSubmit create_open all_filled = Inr (all_filled, [OnSave (formData all_filled)])
   \<and> formData all_filled ''is_active'' = Some (JBool False)"
proof -
  have m: "mode create_open = Create"
    by (simp add: create_open_def)
  have t: "\<forall>f \<in> set (map fst mandatory). filled (formData all_filled) f"
    by (simp add: mandatory_def all_filled_def initial_state_def filled_def get_prop_def
        js_whitespace_def)
  show ?thesis
    using create_submit_saves_once [OF m t] by (simp add: all_filled_def)
qed

text \<open>
  C3. A submit in edit mode performs no validation: for every state, also one whose
  mandatory fields are all empty, it calls the save callback with the held record and
  leaves the state as it is.
\<close>

theorem edit_submit_skips_validation:
  "mode p = Edit \<Longrightarrow> handleSubmit p st = Inr (st, [OnSave (formData st)])"
  by (simp add: handleSubmit_def)

theorem edit_submit_skips_validation_witness:
  "handleSubmit edit_ann initial_state = Inr (initial_state, [OnSave Map.empty])
   \<and> missing_labels (formData initial_state) = [''First Name'', ''Last Name'', ''Primary Email'', ''Primary Phone'']"
proof -
  have m: "mode edit_ann = Edit"
    by (simp add: edit_ann_def)
  show ?thesis
    using edit_submit_skips_validation [OF m, of initial_state]
    by (simp add: initial_state_def missing_labels_def mandatory_def blank_def get_prop_def)
qed


subsection \<open>Initialisation\<close>

text \<open>
  C4. The initialisation effect, and so the first render: in edit mode with a client
  record supplied the held record becomes that record; in create mode the held record
  becomes the fresh record whose only field is \<^verbatim>\<open>case_status\<close> with the value
  \<^verbatim>\<open>"Active"\<close>, and a temporary identifier is generated: the text \<^verbatim>\<open>temp_\<close>, the
  clock reading in decimal, an underscore and up to nine characters of the random
  string after its first two, which is never the empty identifier the component starts
  with.
\<close>

theorem form_initialisation:
  "(mode p = Edit \<and> client p = Some c \<longrightarrow>
      init_effect p e st = st \<lparr> formData := obj c \<rparr>
      \<and> cur_state (fst (mount p e)) = initial_state \<lparr> formData := obj c \<rparr>)
   \<and> (mode p = Create \<longrightarrow>
      init_effect p e st =
        st \<lparr> tempClientId := tempId e, formData := [''case_status'' \<mapsto> JStr ''Active''] \<rparr>
      \<and> cur_state (fst (mount p e)) =
        initial_state \<lparr> tempClientId := tempId e,
                        formData := [''case_status'' \<mapsto> JStr ''Active''] \<rparr>
      \<and> tempClientId (init_effect p e st) =
        ''temp_'' @ show_nat (now e) @ ''_'' @ take 9 (drop 2 (random36 e))
      \<and> tempClientId (cur_state (fst (mount p e))) =
        ''temp_'' @ show_nat (now e) @ ''_'' @ take 9 (drop 2 (random36 e))
      \<and> tempClientId (cur_state (fst (mount p e))) \<noteq> tempClientId initial_state)"
proof -
  have "tempId e \<noteq> tempClientId initial_state"
    by (simp add: tempId_def initial_state_def)
  moreover have "mode p = Create \<Longrightarrow> init_effect p e st =
      st \<lparr> tempClientId := tempId e, formData := [''case_status'' \<mapsto> JStr ''Active''] \<rparr>"
    for st
    by (simp add: init_effect_def split: option.splits)
  ultimately show ?thesis
    unfolding mount_def by (simp add: tempId_def substr_def) (simp add: init_effect_def)
qed

theorem form_initialisation_witness:
  "formData (cur_state (fst (mount edit_ann env1))) = ann
   \<and> formData (cur_state (fst (mount create_open env1))) = [''case_status'' \<mapsto> JStr ''Active'']
   \<and> tempClientId (cur_state (fst (mount create_open env1))) = ''temp_1700000000000_4fzyo82mv''"
proof -
  have a: "mode edit_ann = Edit \<and> client edit_ann = Some \<lparr> addr = 1, obj = ann \<rparr>"
    by (simp add: edit_ann_def)
  have b: "mode create_open = Create"
    by (simp add: create_open_def)
  have n: "''temp_'' @ show_nat (now env1) @ ''_'' @ take 9 (drop 2 (random36 env1))
      = ''temp_1700000000000_4fzyo82mv''"
    by (simp add: env1_def show_nat.simps digit_def)
  note t1 = form_initialisation
    [of edit_ann "\<lparr> addr = 1, obj = ann \<rparr>" env1 initial_state]
  note t2 = form_initialisation
    [of create_open "\<lparr> addr = 1, obj = ann \<rparr>" env1 initial_state]
  from t1 a have 1: "formData (cur_state (fst (mount edit_ann env1))) = ann"
    by simp
  from t2 b have 2: "formData (cur_state (fst (mount create_open env1)))
      = [''case_status'' \<mapsto> JStr ''Active'']"
    by simp
  from t2 b have "tempClientId (cur_state (fst (mount create_open env1)))
      = ''temp_'' @ show_nat (now env1) @ ''_'' @ take 9 (drop 2 (random36 env1))"
    by blast
  then have 3: "tempClientId (cur_state (fst (mount create_open env1)))
      = ''temp_1700000000000_4fzyo82mv''"
    unfolding n .
  from 1 2 3 show ?thesis
    by blast
qed

text \<open>
  C10. With mode edit and no client record the initialisation effect takes the create
  branch: the held record is the fresh default with \<^verbatim>\<open>case_status = "Active"\<close> only
  and a temporary identifier is generated (\<^verbatim>\<open>temp_\<close>, the clock reading in decimal, an
  underscore and up to nine characters of the random string after its first two, never
  the empty identifier the component starts with), exactly as in create mode.
\<close>

theorem edit_without_client_initialises_as_create:
  assumes "mode p = Edit" and "client p = None"
  shows "init_effect p e st =
      st \<lparr> tempClientId := tempId e, formData := [''case_status'' \<mapsto> JStr ''Active''] \<rparr>
    \<and> init_effect p e st = init_effect (p \<lparr> mode := Create \<rparr>) e st
    \<and> formData (init_effect p e st) = [''case_status'' \<mapsto> JStr ''Active'']
    \<and> tempClientId (init_effect p e st) =
        ''temp_'' @ show_nat (now e) @ ''_'' @ take 9 (drop 2 (random36 e))
    \<and> tempClientId (cur_state (fst (mount p e))) =
        ''temp_'' @ show_nat (now e) @ ''_'' @ take 9 (drop 2 (random36 e))
    \<and> tempClientId (cur_state (fst (mount p e))) \<noteq> tempClientId initial_state"
proof -
  have "tempId e \<noteq> tempClientId initial_state"
    by (simp add: tempId_def initial_state_def)
  moreover have "init_effect p e st =
      st \<lparr> tempClientId := tempId e, formData := [''case_status'' \<mapsto> JStr ''Active''] \<rparr>"
    for st
    using assms by (simp add: init_effect_def)
  moreover have "init_effect (p \<lparr> mode := Create \<rparr>) e st =
      st \<lparr> tempClientId := tempId e, formData := [''case_status'' \<mapsto> JStr ''Active''] \<rparr>"
    using assms by (simp add: init_effect_def)
  ultimately show ?thesis
    unfolding mount_def by (simp add: tempId_def substr_def)
qed

theorem edit_without_client_initialises_as_create_witness:
  "init_effect edit_no_client env1 initial_state =
      initial_state \<lparr> tempClientId := ''temp_1700000000000_4fzyo82mv'',
                      formData := [''case_status'' \<mapsto> JStr ''Active''] \<rparr>
   \<and> init_effect edit_no_client env1 initial_state = init_effect create_open env1 initial_state
   \<and> tempClientId (cur_state (fst (mount edit_no_client env1)))
      = ''temp_1700000000000_4fzyo82mv''"
proof -
  have m: "mode edit_no_client = Edit" and c: "client edit_no_client = None"
    by (simp_all add: edit_no_client_def)
  have eq: "edit_no_client \<lparr> mode := Create \<rparr> = create_open"
    by (simp add: edit_no_client_def create_open_def)
  have n: "''temp_'' @ show_nat (now env1) @ ''_'' @ take 9 (drop 2 (random36 env1))
      = ''temp_1700000000000_4fzyo82mv''"
    by (simp add: env1_def show_nat.simps digit_def)
  note t = edit_without_client_initialises_as_create [OF m c, of env1 initial_state,
      unfolded eq n]
  from t have i: "tempClientId (init_effect edit_no_client env1 initial_state)
      = ''temp_1700000000000_4fzyo82mv''"
    by blast
  from t have f: "formData (init_effect edit_no_client env1 initial_state)
      = [''case_status'' \<mapsto> JStr ''Active'']"
    by blast
  have 1: "init_effect edit_no_client env1 initial_state =
      initial_state \<lparr> tempClientId := ''temp_1700000000000_4fzyo82mv'',
                      formData := [''case_status'' \<mapsto> JStr ''Active''] \<rparr>"
    using t i by (simp add: tempId_def substr_def env1_def show_nat.simps digit_def)
  from t have 2: "init_effect edit_no_client env1 initial_state
      = init_effect create_open env1 initial_state"
    by blast
  from t have 3: "tempClientId (cur_state (fst (mount edit_no_client env1)))
      = ''temp_1700000000000_4fzyo82mv''"
    by blast
  from 1 2 3 show ?thesis
    by blast
qed

subsection \<open>The identifier handed to the documents dialog\<close>

text \<open>
  C6, as stated, fails: a dialog in edit mode to which no client record is supplied has
  no real identifier to pass. The initialisation effect has taken its create branch
  there and generated a temporary identifier, and that is what the documents dialog
  receives, although the mode is edit.
\<close>

theorem documents_id_is_real_id_counterexample:
  "mode edit_no_client = Edit
   \<and> getClientIdForDocuments edit_no_client (cur_state (fst (mount edit_no_client env1)))
       = Some (Inr ''temp_1700000000000_4fzyo82mv'')
   \<and> getClientIdForDocuments edit_no_client (cur_state (fst (mount edit_no_client env1)))
       \<noteq> js_toString (client_id edit_no_client)"
  by (simp add: getClientIdForDocuments_def edit_no_client_def client_id_def mount_def
      init_effect_def tempId_def substr_def env1_def show_nat.simps digit_def)

text \<open>
  C6, amended. The identifier passed to the documents dialog is the client's real
  identifier, as a string, when the mode is edit and a client record is supplied whose
  identifier is a non-zero safe integer (printed in decimal) or a non-empty string; it
  is the temporary identifier when the mode is create, and also when the mode is edit
  and no client record is supplied. In those two cases the first render has generated
  the temporary identifier, so the dialog receives the generated one.
\<close>

theorem documents_id_by_mode_and_client:
  "(mode p = Edit \<and> client p = Some c \<and> get_prop (obj c) ''id'' = JNum n
      \<and> n \<noteq> 0 \<and> safe_integer n \<longrightarrow>
      getClientIdForDocuments p st = Some (Inr (show_int n)))
   \<and> (mode p = Edit \<and> client p = Some c \<and> get_prop (obj c) ''id'' = JStr s \<and> s \<noteq> [] \<longrightarrow>
      getClientIdForDocuments p st = Some (Inr s))
   \<and> (mode p = Create \<or> client p = None \<longrightarrow>
      getClientIdForDocuments p st = Some (Inr (tempClientId st))
      \<and> getClientIdForDocuments p (cur_state (fst (mount p e))) = Some (Inr (tempId e)))
   \<and> map_option (map_sum id dd_clientId) (render_DocumentsDialog p st)
       = getClientIdForDocuments p st"
proof -
  have r: "map_sum id dd_clientId (bind x (\<lambda>cid.
       Inr \<lparr> dd_open = documentsOpen st,
             dd_documents = js_or (get_prop (formData st) ''client_documents'') (JObj Map.empty),
             dd_clientId = cid \<rparr>)) = x" for x :: "error + string"
    by (cases x) (simp_all add: bind_def)
  have "map_option (map_sum id dd_clientId) (render_DocumentsDialog p st)
       = getClientIdForDocuments p st"
    by (cases "getClientIdForDocuments p st") (simp_all add: render_DocumentsDialog_def r)
  moreover have "mode p = Create \<or> client p = None \<Longrightarrow>
      tempClientId (cur_state (fst (mount p e))) = tempId e"
    by (auto simp: mount_def init_effect_def split: option.splits)
  ultimately show ?thesis
    by (auto simp: getClientIdForDocuments_def client_id_def)
qed

theorem documents_id_by_mode_and_client_witness:
  "getClientIdForDocuments edit_ann (cur_state (fst (mount edit_ann env1))) = Some (Inr ''7'')
   \<and> getClientIdForDocuments create_open (cur_state (fst (mount create_open env1)))
       = Some (Inr ''temp_1700000000000_4fzyo82mv'')
   \<and> getClientIdForDocuments edit_no_client (cur_state (fst (mount edit_no_client env1)))
       = Some (Inr ''temp_1700000000000_4fzyo82mv'')"
proof -
  have a: "mode edit_ann = Edit \<and> client edit_ann = Some \<lparr> addr = 1, obj = ann \<rparr>
      \<and> get_prop (obj \<lparr> addr = 1, obj = ann \<rparr>) ''id'' = JNum 7 \<and> (7::int) \<noteq> 0
      \<and> safe_integer 7"
    by (simp add: edit_ann_def get_prop_def ann_def safe_integer_def)
  have b: "mode create_open = Create \<or> client create_open = None"
    by (simp add: create_open_def)
  have c: "mode edit_no_client = Create \<or> client edit_no_client = None"
    by (simp add: edit_no_client_def)
  have s: "show_int 7 = ''7''"
    by (simp add: show_int_def show_nat.simps digit_def)
  from documents_id_by_mode_and_client
    [of edit_ann "\<lparr> addr = 1, obj = ann \<rparr>" 7 "cur_state (fst (mount edit_ann env1))"] a
  have 1: "getClientIdForDocuments edit_ann (cur_state (fst (mount edit_ann env1)))
      = Some (Inr ''7'')"
    by (simp add: s)
  from documents_id_by_mode_and_client
    [where p = create_open and e = env1 and st = initial_state] b
  have 2: "getClientIdForDocuments create_open (cur_state (fst (mount create_open env1)))
      = Some (Inr (tempId env1))"
    by blast
  from documents_id_by_mode_and_client
    [where p = edit_no_client and e = env1 and st = initial_state] c
  have 3: "getClientIdForDocuments edit_no_client (cur_state (fst (mount edit_no_client env1)))
      = Some (Inr (tempId env1))"
    by blast
  have n: "tempId env1 = ''temp_1700000000000_4fzyo82mv''"
    by (simp add: tempId_def substr_def env1_def show_nat.simps digit_def)
  from 1 2 3 show ?thesis
    unfolding n by blast
qed

subsection \<open>Field edits\<close>

text \<open>
  C8. A field edit stores under the named key the checked flag of a checkbox input and
  the text of any other input, leaves every other key of the record as it was and touches
  nothing else in the state; toggling the active switch, a checkbox, changes the
  \<^verbatim>\<open>is_active\<close> key only. The edit of a dynamic column does the same with the value it
  is given.
\<close>

theorem field_edit_replaces_one_key:
  "formData (handleChange field ev st) field =
      Some (if target_type ev = ''checkbox'' then JBool (target_checked ev)
            else JStr (target_value ev))
   \<and> (\<forall>k. k \<noteq> field \<longrightarrow> formData (handleChange field ev st) k = formData st k)
   \<and> handleChange field ev st = st \<lparr> formData := formData (handleChange field ev st) \<rparr>
   \<and> (target_type ev = ''checkbox'' \<longrightarrow>
        handleChange ''is_active'' ev st =
          st \<lparr> formData := (formData st)(''is_active'' \<mapsto> JBool (target_checked ev)) \<rparr>)
   \<and> formData (handleDynamicFieldChange field v st) field = Some v
   \<and> (\<forall>k. k \<noteq> field \<longrightarrow> formData (handleDynamicFieldChange field v st) k = formData st k)
   \<and> handleDynamicFieldChange field v st =
        st \<lparr> formData := formData (handleDynamicFieldChange field v st) \<rparr>"
  by (simp add: handleChange_def handleDynamicFieldChange_def Let_def)

theorem field_edit_replaces_one_key_witness:
  "formData (handleChange ''is_active'' checkbox_on all_filled) ''is_active'' = Some (JBool True)
   \<and> formData (handleChange ''is_active'' checkbox_on all_filled) ''last_name''
       = Some (JStr '' Lee '')
   \<and> formData (handleChange ''last_name'' typed_text all_filled) ''last_name''
       = Some (JStr ''Lee'')
   \<and> formData (handleChange ''last_name'' typed_text all_filled) ''is_active''
       = Some (JBool False)"
proof -
  have t: "target_type checkbox_on = ''checkbox''" "target_checked checkbox_on = True"
    "target_type typed_text = ''text''" "target_value typed_text = ''Lee''"
    by (simp_all add: checkbox_on_def typed_text_def)
  have o: "formData all_filled ''last_name'' = Some (JStr '' Lee '')"
    "formData all_filled ''is_active'' = Some (JBool False)"
    by (simp_all add: all_filled_def)
  show ?thesis
    using field_edit_replaces_one_key [of "''is_active''" checkbox_on all_filled]
      field_edit_replaces_one_key [of "''last_name''" typed_text all_filled]
    by (simp add: t o)
qed


subsection \<open>Saving from the custom-fields and documents dialogs\<close>

lemma existing_sub_map:
  "sub_map_ok fd key \<Longrightarrow> spread (js_or (get_prop fd key) (JObj Map.empty)) = sub_map fd key"
  by (auto simp: sub_map_ok_def sub_map_def js_or_def get_prop_def split: option.splits jsval.splits)

lemma custom_fields_save:
  "sub_map_ok (formData st) ''user_defined_fields'' \<Longrightarrow>
   handleCustomFieldsSave f st = additive_merge ''user_defined_fields'' f st"
  by (simp add: handleCustomFieldsSave_def additive_merge_def existing_sub_map)

lemma documents_save:
  "sub_map_ok (formData st) ''client_documents'' \<Longrightarrow>
   handleDocumentsSave d st = additive_merge ''client_documents'' (map_option JStr \<circ> d) st"
  by (simp add: handleDocumentsSave_def additive_merge_def existing_sub_map)

lemma sub_map_additive_merge:
  "sub_map (formData (additive_merge key f st)) key = sub_map (formData st) key ++ f"
  by (simp add: additive_merge_def sub_map_def)

lemma sub_map_ok_additive_merge: "sub_map_ok (formData (additive_merge key f st)) key"
  by (simp add: additive_merge_def sub_map_ok_def)

lemma additive_merge_twice:
  "additive_merge key g (additive_merge key f st) =
     st \<lparr> formData := (formData st)(key \<mapsto> JObj (sub_map (formData st) key ++ f ++ g)) \<rparr>"
  by (simp add: additive_merge_def sub_map_def)

lemma merge_lookup: "(m ++ f) k = (if k \<in> dom f then f k else m k)"
  by (simp add: map_add_dom_app_simps)

lemma merge_twice_union:
  assumes "dom f \<inter> dom g = {}"
  shows "Map.graph (m ++ f ++ g) =
    Map.graph (m |` (- (dom f \<union> dom g))) \<union> Map.graph f \<union> Map.graph g"
  using assms
  by (auto simp: Map.graph_def map_add_Some_iff restrict_map_def dom_def split: if_splits)

lemma merge_twice_comm:
  assumes "dom f \<inter> dom g = {}"
  shows "m ++ f ++ g = m ++ g ++ f"
proof -
  have "f ++ g = g ++ f"
    using assms by (rule map_add_comm)
  then have "m ++ (f ++ g) = m ++ (g ++ f)"
    by (rule arg_cong)
  then show ?thesis
    by (simp only: map_add_assoc)
qed

lemma merge_overwrites_overlap:
  "sub_map (formData (additive_merge key f st)) key k =
     (if k \<in> dom f then f k else sub_map (formData st) key k)"
  by (simp add: sub_map_additive_merge merge_lookup)

lemma merge_frame: "k \<noteq> key \<Longrightarrow> formData (additive_merge key f st) k = formData st k"
  by (simp add: additive_merge_def)

lemma sub_map_merge_twice:
  "sub_map (formData (additive_merge key g (additive_merge key f st))) key
     = sub_map (formData st) key ++ f ++ g"
  by (simp add: sub_map_additive_merge)

lemma merge_disjoint_union:
  assumes "dom f \<inter> dom g = {}"
  shows "Map.graph (sub_map (formData (additive_merge key g (additive_merge key f st))) key) =
     Map.graph (sub_map (formData st) key |` (- (dom f \<union> dom g)))
       \<union> Map.graph f \<union> Map.graph g"
  unfolding sub_map_merge_twice using assms by (rule merge_twice_union)

lemma merge_disjoint_commute:
  assumes "dom f \<inter> dom g = {}"
  shows "additive_merge key g (additive_merge key f st) =
     additive_merge key f (additive_merge key g st)"
  unfolding additive_merge_twice using merge_twice_comm [OF assms] by simp

lemma restrict_outside_dom:
  assumes "dom m \<inter> A = {}"
  shows "m |` (- A) = m"
proof (rule ext)
  fix k
  show "(m |` (- A)) k = m k"
  proof (cases "k \<in> A")
    case True
    with assms have "k \<notin> dom m" by blast
    then have "m k = None" by (simp add: domIff)
    then show ?thesis by (simp add: restrict_map_def)
  next
    case False
    then show ?thesis by simp
  qed
qed

lemma merge_all_disjoint_union:
  assumes "dom f \<inter> dom g = {}"
    and "dom (sub_map (formData st) key) \<inter> (dom f \<union> dom g) = {}"
  shows "Map.graph (sub_map (formData (additive_merge key g (additive_merge key f st))) key) =
     Map.graph (sub_map (formData st) key) \<union> Map.graph f \<union> Map.graph g"
  using merge_disjoint_union [OF assms(1), of key st] restrict_outside_dom [OF assms(2)]
  by simp

text \<open>
  C7. On a record whose custom-fields and documents keys are absent or hold an object,
  saving from the custom-fields dialog, and likewise from the documents dialog, is the
  additive merge: the returned map is laid over the existing sub-map and no other key of
  the record changes. An entry of the merged sub-map is the returned one where the
  returned map has the key and the existing one elsewhere, so overlapping keys are
  overwritten and all others are left as they were. Two merges with disjoint key sets
  yield the union of the two returned maps and of what they leave of the existing
  sub-map, in either order; when the existing keys are disjoint from both, that is the
  union of all three.
\<close>

theorem sub_map_saves_merge_additively:
  assumes "sub_map_ok (formData st) ''user_defined_fields''"
    and "sub_map_ok (formData st) ''client_documents''"
  shows "handleCustomFieldsSave f st = additive_merge ''user_defined_fields'' f st
   \<and> handleCustomFieldsSave g (handleCustomFieldsSave f st) =
       additive_merge ''user_defined_fields'' g (additive_merge ''user_defined_fields'' f st)
   \<and> handleDocumentsSave d st = additive_merge ''client_documents'' (map_option JStr \<circ> d) st
   \<and> handleDocumentsSave d' (handleDocumentsSave d st) =
       additive_merge ''client_documents'' (map_option JStr \<circ> d')
         (additive_merge ''client_documents'' (map_option JStr \<circ> d) st)
   \<and> (\<forall>k. sub_map (formData (additive_merge key f st)) key k =
          (if k \<in> dom f then f k else sub_map (formData st) key k))
   \<and> (\<forall>k. k \<noteq> key \<longrightarrow> formData (additive_merge key f st) k = formData st k)
   \<and> (dom f \<inter> dom g = {} \<longrightarrow>
        Map.graph (sub_map (formData (additive_merge key g (additive_merge key f st))) key) =
          Map.graph (sub_map (formData st) key |` (- (dom f \<union> dom g)))
            \<union> Map.graph f \<union> Map.graph g
        \<and> additive_merge key g (additive_merge key f st) =
          additive_merge key f (additive_merge key g st))
   \<and> (dom f \<inter> dom g = {} \<and> dom (sub_map (formData st) key) \<inter> (dom f \<union> dom g) = {} \<longrightarrow>
        Map.graph (sub_map (formData (additive_merge key g (additive_merge key f st))) key) =
          Map.graph (sub_map (formData st) key) \<union> Map.graph f \<union> Map.graph g)"
proof (intro conjI allI impI)
  show c1: "handleCustomFieldsSave f st = additive_merge ''user_defined_fields'' f st"
    using assms(1) by (rule custom_fields_save)
  show "handleCustomFieldsSave g (handleCustomFieldsSave f st) =
      additive_merge ''user_defined_fields'' g (additive_merge ''user_defined_fields'' f st)"
    unfolding c1 by (rule custom_fields_save) (rule sub_map_ok_additive_merge)
  show d1: "handleDocumentsSave d st =
      additive_merge ''client_documents'' (map_option JStr \<circ> d) st"
    using assms(2) by (rule documents_save)
  show "handleDocumentsSave d' (handleDocumentsSave d st) =
      additive_merge ''client_documents'' (map_option JStr \<circ> d')
        (additive_merge ''client_documents'' (map_option JStr \<circ> d) st)"
    unfolding d1 by (rule documents_save) (rule sub_map_ok_additive_merge)
next
  fix k
  show "sub_map (formData (additive_merge key f st)) key k =
      (if k \<in> dom f then f k else sub_map (formData st) key k)"
    by (rule merge_overwrites_overlap)
next
  fix k
  assume "k \<noteq> key"
  then show "formData (additive_merge key f st) k = formData st k"
    by (rule merge_frame)
next
  assume "dom f \<inter> dom g = {}"
  then show "Map.graph (sub_map (formData (additive_merge key g (additive_merge key f st))) key) =
      Map.graph (sub_map (formData st) key |` (- (dom f \<union> dom g)))
        \<union> Map.graph f \<union> Map.graph g"
    by (rule merge_disjoint_union)
next
  assume "dom f \<inter> dom g = {}"
  then show "additive_merge key g (additive_merge key f st) =
      additive_merge key f (additive_merge key g st)"
    by (rule merge_disjoint_commute)
next
  assume "dom f \<inter> dom g = {} \<and> dom (sub_map (formData st) key) \<inter> (dom f \<union> dom g) = {}"
  then show "Map.graph (sub_map (formData (additive_merge key g (additive_merge key f st))) key) =
      Map.graph (sub_map (formData st) key) \<union> Map.graph f \<union> Map.graph g"
    by (simp add: merge_all_disjoint_union)
qed

lemma with_fields_ok:
  "sub_map_ok (formData with_fields) ''user_defined_fields''"
  "sub_map_ok (formData with_fields) ''client_documents''"
  by (simp_all add: with_fields_def sub_map_ok_def initial_state_def)

theorem sub_map_saves_merge_additively_witness:
  "sub_map (formData (handleCustomFieldsSave
       [''judge'' \<mapsto> JStr ''Roe'', ''venue'' \<mapsto> JStr ''NY''] with_fields))
     ''user_defined_fields''
   = [''court'' \<mapsto> JStr ''Kings'', ''judge'' \<mapsto> JStr ''Roe'', ''venue'' \<mapsto> JStr ''NY'']
   \<and> sub_map (formData (handleDocumentsSave [''b.pdf'' \<mapsto> ''u2'']
          (handleDocumentsSave [''a.pdf'' \<mapsto> ''u1''] with_fields))) ''client_documents''
   = [''a.pdf'' \<mapsto> JStr ''u1'', ''b.pdf'' \<mapsto> JStr ''u2'']
   \<and> additive_merge ''client_documents'' [''b.pdf'' \<mapsto> JStr ''u2'']
        (additive_merge ''client_documents'' [''a.pdf'' \<mapsto> JStr ''u1''] with_fields)
     = additive_merge ''client_documents'' [''a.pdf'' \<mapsto> JStr ''u1'']
        (additive_merge ''client_documents'' [''b.pdf'' \<mapsto> JStr ''u2''] with_fields)"
proof -
  have s: "sub_map (formData with_fields) ''user_defined_fields''
      = [''court'' \<mapsto> JStr ''Kings'', ''judge'' \<mapsto> JStr ''Hale'']"
    "sub_map (formData with_fields) ''client_documents'' = Map.empty"
    by (simp_all add: with_fields_def sub_map_def)
  have l: "map_option JStr \<circ> [''a.pdf'' \<mapsto> ''u1''] = [''a.pdf'' \<mapsto> JStr ''u1'']"
    "map_option JStr \<circ> [''b.pdf'' \<mapsto> ''u2''] = [''b.pdf'' \<mapsto> JStr ''u2'']"
    by (auto simp: fun_eq_iff)
  have m: "[''court'' \<mapsto> JStr ''Kings'', ''judge'' \<mapsto> JStr ''Hale'']
        ++ [''judge'' \<mapsto> JStr ''Roe'', ''venue'' \<mapsto> JStr ''NY'']
      = [''court'' \<mapsto> JStr ''Kings'', ''judge'' \<mapsto> JStr ''Roe'', ''venue'' \<mapsto> JStr ''NY'']"
    by (auto simp: fun_eq_iff map_add_def)
  have dj: "dom [''a.pdf'' \<mapsto> JStr ''u1''] \<inter> dom [''b.pdf'' \<mapsto> JStr ''u2''] = {}"
    by simp
  note t1 = sub_map_saves_merge_additively [OF with_fields_ok,
        of "[''judge'' \<mapsto> JStr ''Roe'', ''venue'' \<mapsto> JStr ''NY'']" Map.empty
           "[''a.pdf'' \<mapsto> ''u1'']" "[''b.pdf'' \<mapsto> ''u2'']" "''user_defined_fields''"]
  note t2 = sub_map_saves_merge_additively [OF with_fields_ok,
        of "[''a.pdf'' \<mapsto> JStr ''u1'']" "[''b.pdf'' \<mapsto> JStr ''u2'']"
           "[''a.pdf'' \<mapsto> ''u1'']" "[''b.pdf'' \<mapsto> ''u2'']" "''client_documents''"]
  have a: "handleCustomFieldsSave [''judge'' \<mapsto> JStr ''Roe'', ''venue'' \<mapsto> JStr ''NY''] with_fields
      = additive_merge ''user_defined_fields''
          [''judge'' \<mapsto> JStr ''Roe'', ''venue'' \<mapsto> JStr ''NY''] with_fields"
    using t1 by blast
  have b: "handleDocumentsSave [''b.pdf'' \<mapsto> ''u2'']
          (handleDocumentsSave [''a.pdf'' \<mapsto> ''u1''] with_fields)
      = additive_merge ''client_documents'' [''b.pdf'' \<mapsto> JStr ''u2'']
          (additive_merge ''client_documents'' [''a.pdf'' \<mapsto> JStr ''u1''] with_fields)"
    using t2 unfolding l by blast
  have c: "additive_merge ''client_documents'' [''b.pdf'' \<mapsto> JStr ''u2'']
        (additive_merge ''client_documents'' [''a.pdf'' \<mapsto> JStr ''u1''] with_fields)
     = additive_merge ''client_documents'' [''a.pdf'' \<mapsto> JStr ''u1'']
        (additive_merge ''client_documents'' [''b.pdf'' \<mapsto> JStr ''u2''] with_fields)"
    using t2 dj by blast
  have e: "Map.empty ++ [''a.pdf'' \<mapsto> JStr ''u1''] ++ [''b.pdf'' \<mapsto> JStr ''u2'']
      = [''a.pdf'' \<mapsto> JStr ''u1'', ''b.pdf'' \<mapsto> JStr ''u2'']"
    by (auto simp: fun_eq_iff map_add_def)
  show ?thesis
    unfolding a b sub_map_merge_twice sub_map_additive_merge s m e using c by simp
qed


subsection \<open>The temporary identifier\<close>

lemma digit_inj: "a < 10 \<Longrightarrow> b < 10 \<Longrightarrow> digit a = digit b \<Longrightarrow> a = b"
proof -
  assume a: "a < 10" and b: "b < 10" and e: "digit a = digit b"
  have d: "distinct ''0123456789''" by simp
  have "a < length ''0123456789''" "b < length ''0123456789''"
    using a b by simp_all
  with d e show "a = b"
    unfolding digit_def by (simp only: nth_eq_iff_index_eq)
qed

lemma digit_not_underscore: "d < 10 \<Longrightarrow> digit d \<noteq> CHR ''_''"
proof -
  assume "d < 10"
  then have "d < length ''0123456789''" by simp
  then have "digit d \<in> set ''0123456789''"
    unfolding digit_def by (rule nth_mem)
  then show ?thesis by auto
qed

lemma show_nat_no_underscore: "CHR ''_'' \<notin> set (show_nat n)"
proof (induction n rule: show_nat.induct)
  case (1 n)
  show ?case
  proof (cases "n < 10")
    case True
    then show ?thesis
      using digit_not_underscore [of n] by (subst show_nat.simps) simp
  next
    case False
    then show ?thesis
      using 1 digit_not_underscore [of "n mod 10"] by (subst show_nat.simps) simp
  qed
qed

lemma show_nat_length: "length (show_nat n) = 1 \<longleftrightarrow> n < 10"
proof (cases "n < 10")
  case True
  then show ?thesis by (subst show_nat.simps) simp
next
  case False
  have "show_nat (n div 10) \<noteq> []"
    by (subst show_nat.simps) simp
  then show ?thesis
    using False by (subst show_nat.simps) simp
qed

lemma show_nat_inj: "show_nat n = show_nat m \<Longrightarrow> n = m"
proof (induction n arbitrary: m rule: show_nat.induct)
  case (1 n)
  show ?case
  proof (cases "n < 10")
    case True
    then have "length (show_nat m) = 1"
      using "1.prems" show_nat_length [of n] by simp
    then have m: "m < 10" using show_nat_length [of m] by simp
    from "1.prems" True m have "digit n = digit m"
      by (simp add: show_nat.simps [of n] show_nat.simps [of m])
    with True m show ?thesis by (rule digit_inj)
  next
    case False
    then have "length (show_nat m) \<noteq> 1"
      using "1.prems" show_nat_length [of n] by simp
    then have m: "\<not> m < 10" using show_nat_length [of m] by simp
    from "1.prems" False m have
      "show_nat (n div 10) @ [digit (n mod 10)] = show_nat (m div 10) @ [digit (m mod 10)]"
      by (simp add: show_nat.simps [of n] show_nat.simps [of m])
    then have a: "show_nat (n div 10) = show_nat (m div 10)"
      and b: "digit (n mod 10) = digit (m mod 10)"
      by simp_all
    from a have "n div 10 = m div 10"
      using False by (rule "1.IH" [rotated])
    moreover have "n mod 10 = m mod 10"
      using b by (intro digit_inj) simp_all
    ultimately show ?thesis
      by (metis div_mult_mod_eq)
  qed
qed

lemma split_at_separator:
  assumes "s \<notin> set xs" and "s \<notin> set ys" and "xs @ s # r = ys @ s # r'"
  shows "xs = ys \<and> r = r'"
proof -
  have "takeWhile (\<lambda>c. c \<noteq> s) (xs @ s # r) = xs" "takeWhile (\<lambda>c. c \<noteq> s) (ys @ s # r') = ys"
    using assms(1,2) by (auto simp: takeWhile_tail)
  with assms(3) have "xs = ys" by simp
  with assms(3) show ?thesis by simp
qed

lemma tempId_eq_iff:
  "tempId e = tempId e' \<longleftrightarrow>
     now e = now e' \<and> substr (random36 e) 2 9 = substr (random36 e') 2 9"
proof
  assume "tempId e = tempId e'"
  then have "show_nat (now e) @ CHR ''_'' # substr (random36 e) 2 9
      = show_nat (now e') @ CHR ''_'' # substr (random36 e') 2 9"
    by (simp add: tempId_def)
  then have "show_nat (now e) = show_nat (now e')
      \<and> substr (random36 e) 2 9 = substr (random36 e') 2 9"
    by (rule split_at_separator [OF show_nat_no_underscore show_nat_no_underscore])
  then show "now e = now e' \<and> substr (random36 e) 2 9 = substr (random36 e') 2 9"
    by (auto dest: show_nat_inj)
next
  assume "now e = now e' \<and> substr (random36 e) 2 9 = substr (random36 e') 2 9"
  then show "tempId e = tempId e'"
    by (simp add: tempId_def)
qed


lemma handlers_keep_temp_id:
  "tempClientId (handleChange f ev st) = tempClientId st"
  "tempClientId (handleDynamicFieldChange n v st) = tempClientId st"
  "tempClientId (handleCustomFieldsSave fs st) = tempClientId st"
  "tempClientId (handleDocumentsSave ds st) = tempClientId st"
  "tempClientId (handleDeleteCustomField n st) = tempClientId st"
  "tempClientId (handleDeleteDocument n st) = tempClientId st"
  "tempClientId (handleCloseValidationError st) = tempClientId st"
  "tempClientId (fst (fetchDynamicColumns r st)) = tempClientId st"
  by (simp_all add: handleChange_def handleDynamicFieldChange_def handleCustomFieldsSave_def
      handleDocumentsSave_def handleDeleteCustomField_def handleDeleteDocument_def
      handleCloseValidationError_def fetchDynamicColumns_def Let_def split: settled.splits)

lemma validate_keeps:
  "validateMandatoryFields st = Inr (ok, st') \<Longrightarrow>
     tempClientId st' = tempClientId st \<and> dynamicColumns st' = dynamicColumns st
     \<and> formData st' = formData st"
  by (auto simp: validateMandatoryFields_def bind_def split: sum.splits if_splits)

lemma submit_keeps:
  "handleSubmit p st = Inr (st', acts) \<Longrightarrow>
     tempClientId st' = tempClientId st \<and> dynamicColumns st' = dynamicColumns st
     \<and> formData st' = formData st \<and> GetColumnMetadata \<notin> set acts"
  by (auto simp: handleSubmit_def bind_def split: sum.splits if_splits dest: validate_keeps)

lemma step_keeps_temp_id:
  "\<not> is_rerender ev \<Longrightarrow> tempClientId (cur_state (fst (step c ev))) = tempClientId (cur_state c)"
  by (cases ev)
     (auto simp: is_rerender_def with_state_def handlers_keep_temp_id fetchDynamicColumns_def
       split: sum.splits prod.splits settled.splits dest: submit_keeps)

text \<open>
  C5, as stated, fails: the initialisation effect depends on \<^verbatim>\<open>[client, mode]\<close> only,
  so a dialog opened in create mode, closed and opened again with the same client and
  mode keeps the temporary identifier of the first open, although the clock and the
  random source would have given another one.
\<close>

theorem reopen_new_temp_id_counterexample:
  "tempClientId (cur_state (fst (run (mount create_open env1)
        [Rerender create_closed env2, Rerender create_open env3])))
     = tempClientId (cur_state (fst (mount create_open env1)))
   \<and> tempId env3 \<noteq> tempId env1"
proof -
  have "now env3 \<noteq> now env1"
    by (simp add: env1_def env3_def)
  then have "tempId env3 \<noteq> tempId env1"
    by (simp add: tempId_eq_iff)
  moreover have "tempClientId (cur_state (fst (run (mount create_open env1)
        [Rerender create_closed env2, Rerender create_open env3])))
     = tempClientId (cur_state (fst (mount create_open env1)))"
    by (simp add: mount_def rerender_def init_deps_changed_def create_open_def
        create_closed_def fetch_effect_def)
  ultimately show ?thesis by simp
qed

text \<open>
  C5, amended. A render that changes neither the client object nor the mode leaves the
  whole state, and so the temporary identifier and the held record, as they were, whatever
  the open flag does; no other event changes the temporary identifier, so it is constant
  within a create session. The identifier is generated at the first render and at a
  render that changes the client or the mode, when the mode is create or no client is
  supplied, from the clock and the random source of that moment; two generated
  identifiers are equal exactly when the two clock readings and the two random parts are.
  A render in edit mode with a client record generates none: the identifier stays what
  it was, which at the first render is the empty string.
\<close>

theorem temp_id_follows_init_effect:
  "(\<not> init_deps_changed (cur_props c) p' \<longrightarrow>
      cur_state (fst (step c (Rerender p' e))) = cur_state c)
   \<and> (\<not> is_rerender ev \<longrightarrow>
      tempClientId (cur_state (fst (step c ev))) = tempClientId (cur_state c))
   \<and> (init_deps_changed (cur_props c) p' \<and> (mode p' = Create \<or> client p' = None) \<longrightarrow>
      tempClientId (cur_state (fst (step c (Rerender p' e)))) = tempId e)
   \<and> (mode p = Create \<or> client p = None \<longrightarrow>
      tempClientId (cur_state (fst (mount p e))) = tempId e)
   \<and> (tempId e = tempId e' \<longleftrightarrow>
      now e = now e' \<and> substr (random36 e) 2 9 = substr (random36 e') 2 9)
   \<and> (mode p' = Edit \<and> client p' = Some cl \<longrightarrow>
      tempClientId (cur_state (fst (step c (Rerender p' e)))) = tempClientId (cur_state c))
   \<and> (mode p = Edit \<and> client p = Some cl \<longrightarrow>
      tempClientId (cur_state (fst (mount p e))) = tempClientId initial_state)
   \<and> tempClientId initial_state = []"
proof (intro conjI impI)
  assume "\<not> init_deps_changed (cur_props c) p'"
  then show "cur_state (fst (step c (Rerender p' e))) = cur_state c"
    by (simp add: rerender_def)
next
  assume "\<not> is_rerender ev"
  then show "tempClientId (cur_state (fst (step c ev))) = tempClientId (cur_state c)"
    by (rule step_keeps_temp_id)
next
  assume "init_deps_changed (cur_props c) p' \<and> (mode p' = Create \<or> client p' = None)"
  then show "tempClientId (cur_state (fst (step c (Rerender p' e)))) = tempId e"
    by (auto simp: rerender_def init_effect_def split: option.splits)
next
  assume "mode p = Create \<or> client p = None"
  then show "tempClientId (cur_state (fst (mount p e))) = tempId e"
    by (auto simp: mount_def init_effect_def split: option.splits)
next
  show "tempId e = tempId e' \<longleftrightarrow>
      now e = now e' \<and> substr (random36 e) 2 9 = substr (random36 e') 2 9"
    by (rule tempId_eq_iff)
next
  assume "mode p' = Edit \<and> client p' = Some cl"
  then show "tempClientId (cur_state (fst (step c (Rerender p' e)))) = tempClientId (cur_state c)"
    by (simp add: rerender_def init_effect_def)
next
  assume "mode p = Edit \<and> client p = Some cl"
  then show "tempClientId (cur_state (fst (mount p e))) = tempClientId initial_state"
    by (simp add: mount_def init_effect_def)
next
  show "tempClientId initial_state = []"
    by (simp add: initial_state_def)
qed

theorem temp_id_follows_init_effect_witness:
  "cur_state (fst (step (fst (mount create_closed env1)) (Rerender create_open env1)))
     = cur_state (fst (mount create_closed env1))
   \<and> tempClientId (cur_state (fst (step (fst (mount create_closed env1))
         (Change ''last_name'' typed_text))))
     = tempId env1
   \<and> tempClientId (cur_state (fst (step (fst (mount edit_ann env1)) (Rerender create_open env2))))
     = tempId env2
   \<and> tempId env1 \<noteq> tempId env2
   \<and> tempClientId (cur_state (fst (step (fst (mount create_closed env1))
         (Rerender edit_ann env2))))
     = tempId env1
   \<and> tempClientId (cur_state (fst (mount edit_ann env1))) = []"
proof -
  let ?c = "fst (mount create_closed env1)"
  let ?d = "fst (mount edit_ann env1)"
  note t1 = temp_id_follows_init_effect
    [where c = ?c and p' = create_open and e = env1 and ev = "Change ''last_name'' typed_text"
       and p = create_closed and e' = env2 and cl = "\<lparr> addr = 1, obj = ann \<rparr>"]
  note t2 = temp_id_follows_init_effect
    [where c = ?d and p' = create_open and e = env2 and ev = "Change ''last_name'' typed_text"
       and p = create_closed and e' = env1 and cl = "\<lparr> addr = 1, obj = ann \<rparr>"]
  note t3 = temp_id_follows_init_effect
    [where c = ?c and p' = edit_ann and e = env2 and ev = "Change ''last_name'' typed_text"
       and p = create_closed and e' = env1 and cl = "\<lparr> addr = 1, obj = ann \<rparr>"]
  note t4 = temp_id_follows_init_effect
    [where c = ?c and p' = edit_ann and e = env1 and ev = "Change ''last_name'' typed_text"
       and p = edit_ann and e' = env2 and cl = "\<lparr> addr = 1, obj = ann \<rparr>"]
  have ed: "mode edit_ann = Edit \<and> client edit_ann = Some \<lparr> addr = 1, obj = ann \<rparr>"
    by (simp add: edit_ann_def)
  have a: "\<not> init_deps_changed (cur_props ?c) create_open"
    by (simp add: mount_def init_deps_changed_def create_open_def create_closed_def)
  have b: "\<not> is_rerender (Change ''last_name'' typed_text)"
    by (simp add: is_rerender_def)
  have c: "init_deps_changed (cur_props ?d) create_open
      \<and> (mode create_open = Create \<or> client create_open = None)"
    by (simp add: mount_def init_deps_changed_def create_open_def edit_ann_def)
  have d: "mode create_closed = Create \<or> client create_closed = None"
    by (simp add: create_closed_def)
  have n: "now env1 \<noteq> now env2"
    by (simp add: env1_def env2_def)
  from t1 a have 1: "cur_state (fst (step ?c (Rerender create_open env1))) = cur_state ?c"
    by blast
  from t1 b d have 2: "tempClientId (cur_state (fst (step ?c (Change ''last_name'' typed_text))))
      = tempId env1"
    by simp
  from t2 c have 3: "tempClientId (cur_state (fst (step ?d (Rerender create_open env2))))
      = tempId env2"
    by blast
  from t1 n have 4: "tempId env1 \<noteq> tempId env2"
    by blast
  from t1 d have 0: "tempClientId (cur_state ?c) = tempId env1"
    by blast
  from t3 ed have "tempClientId (cur_state (fst (step ?c (Rerender edit_ann env2))))
      = tempClientId (cur_state ?c)"
    by blast
  with 0 have 5: "tempClientId (cur_state (fst (step ?c (Rerender edit_ann env2)))) = tempId env1"
    by simp
  from t4 ed have 6: "tempClientId (cur_state ?d) = []"
    by simp
  from 1 2 3 4 5 6 show ?thesis
    by blast
qed

subsection \<open>Fetching the extra columns\<close>

text \<open>
  C9, as stated, fails in its last part: a failed fetch only logs, so after one open whose
  fetch succeeded and a second open whose fetch failed the list of extra columns still
  holds the columns of the first open; it is not empty.
\<close>

theorem failed_fetch_leaves_list_empty_counterexample:
  "dynamicColumns (cur_state (fst (run (mount create_open env1)
      [ColumnsSettled (Fulfilled [some_column]), Rerender create_closed env2,
       Rerender create_open env3, ColumnsSettled (Rejected ''network down'')])))
     = [some_column]
   \<and> [some_column] \<noteq> []
   \<and> snd (run (mount create_open env1)
      [ColumnsSettled (Fulfilled [some_column]), Rerender create_closed env2,
       Rerender create_open env3, ColumnsSettled (Rejected ''network down'')])
     = [GetColumnMetadata, GetColumnMetadata,
        ConsoleError ''Error fetching dynamic columns:'' ''network down'']"
  by (simp add: mount_def rerender_def init_deps_changed_def create_open_def
      create_closed_def fetch_effect_def fetchDynamicColumns_def with_state_def)

lemma step_no_fetch: "\<not> is_rerender ev \<Longrightarrow> GetColumnMetadata \<notin> set (snd (step c ev))"
  by (cases ev)
     (auto simp: is_rerender_def fetchDynamicColumns_def
       split: sum.splits prod.splits settled.splits dest: submit_keeps)

lemma handlers_keep_columns:
  "dynamicColumns (handleChange f ev st) = dynamicColumns st"
  "dynamicColumns (handleDynamicFieldChange n v st) = dynamicColumns st"
  "dynamicColumns (handleCustomFieldsSave fs st) = dynamicColumns st"
  "dynamicColumns (handleDocumentsSave ds st) = dynamicColumns st"
  "dynamicColumns (handleDeleteCustomField n st) = dynamicColumns st"
  "dynamicColumns (handleDeleteDocument n st) = dynamicColumns st"
  "dynamicColumns (handleCloseValidationError st) = dynamicColumns st"
  "dynamicColumns (init_effect p e st) = dynamicColumns st"
  by (simp_all add: handleChange_def handleDynamicFieldChange_def handleCustomFieldsSave_def
      handleDocumentsSave_def handleDeleteCustomField_def handleDeleteDocument_def
      handleCloseValidationError_def init_effect_def Let_def split: option.splits)

lemma step_keeps_columns:
  "(\<forall>cols. ev \<noteq> ColumnsSettled (Fulfilled cols)) \<Longrightarrow>
     dynamicColumns (cur_state (fst (step c ev))) = dynamicColumns (cur_state c)"
  by (cases ev)
     (auto simp: with_state_def rerender_def handlers_keep_columns fetchDynamicColumns_def
       split: sum.splits prod.splits settled.splits dest: submit_keeps)

text \<open>
  C9, amended. The column definitions are requested once at the first render when the
  dialog is open and once at every render that turns the open flag on, at no other render
  and by no other event, a keystroke included. A successful fetch stores the returned
  columns. A failed fetch logs the error and leaves the component as it is: the list of
  extra columns keeps its value, which is empty from the first render until a fetch has
  succeeded, since nothing but a successful fetch changes the list.
\<close>

theorem columns_fetched_once_per_open:
  "snd (mount p e) = (if open p then [GetColumnMetadata] else [])
   \<and> snd (step c (Rerender p' e)) =
       (if open (cur_props c) \<noteq> open p' \<and> open p' then [GetColumnMetadata] else [])
   \<and> (\<not> is_rerender ev \<longrightarrow> GetColumnMetadata \<notin> set (snd (step c ev)))
   \<and> step c (ColumnsSettled (Fulfilled cols)) =
       (with_state c ((cur_state c) \<lparr> dynamicColumns := cols \<rparr>), [])
   \<and> step c (ColumnsSettled (Rejected err)) =
       (c, [ConsoleError ''Error fetching dynamic columns:'' err])
   \<and> dynamicColumns (cur_state (fst (mount p e))) = []
   \<and> ((\<forall>cols. ev \<noteq> ColumnsSettled (Fulfilled cols)) \<longrightarrow>
        dynamicColumns (cur_state (fst (step c ev))) = dynamicColumns (cur_state c))"
proof (intro conjI impI)
  show "snd (mount p e) = (if open p then [GetColumnMetadata] else [])"
    by (simp add: mount_def fetch_effect_def)
  show "snd (step c (Rerender p' e)) =
       (if open (cur_props c) \<noteq> open p' \<and> open p' then [GetColumnMetadata] else [])"
    by (simp add: rerender_def fetch_effect_def)
  show "step c (ColumnsSettled (Fulfilled cols)) =
       (with_state c ((cur_state c) \<lparr> dynamicColumns := cols \<rparr>), [])"
    by (simp add: fetchDynamicColumns_def)
  show "step c (ColumnsSettled (Rejected err)) =
       (c, [ConsoleError ''Error fetching dynamic columns:'' err])"
    by (simp add: fetchDynamicColumns_def with_state_def)
  show "dynamicColumns (cur_state (fst (mount p e))) = []"
    by (simp add: mount_def handlers_keep_columns initial_state_def)
next
  assume "\<not> is_rerender ev"
  then show "GetColumnMetadata \<notin> set (snd (step c ev))"
    by (rule step_no_fetch)
next
  assume "\<forall>cols. ev \<noteq> ColumnsSettled (Fulfilled cols)"
  then show "dynamicColumns (cur_state (fst (step c ev))) = dynamicColumns (cur_state c)"
    by (rule step_keeps_columns)
qed

theorem columns_fetched_once_per_open_witness:
  "snd (step (fst (mount create_closed env1)) (Rerender create_open env2)) = [GetColumnMetadata]
   \<and> GetColumnMetadata \<notin> set (snd (step (fst (mount create_open env1))
        (Change ''last_name'' typed_text)))
   \<and> dynamicColumns (cur_state (fst (step (fst (mount create_open env1))
        (ColumnsSettled (Rejected ''network down''))))) = []"
proof -
  let ?c = "fst (mount create_closed env1)"
  let ?d = "fst (mount create_open env1)"
  note t1 = columns_fetched_once_per_open
    [where p = create_closed and e = env2 and c = ?c and p' = create_open
       and ev = "Change ''last_name'' typed_text"]
  note t2 = columns_fetched_once_per_open
    [where p = create_open and e = env1 and c = ?d and p' = create_open
       and ev = "Change ''last_name'' typed_text"]
  note t3 = columns_fetched_once_per_open
    [where p = create_open and e = env1 and c = ?d and p' = create_open
       and ev = "ColumnsSettled (Rejected ''network down'')"]
  have o: "open (cur_props ?c) \<noteq> open create_open \<and> open create_open"
    by (simp add: mount_def create_open_def create_closed_def)
  have b: "\<not> is_rerender (Change ''last_name'' typed_text)"
    by (simp add: is_rerender_def)
  have r: "\<forall>cols. ColumnsSettled (Rejected ''network down'') \<noteq> ColumnsSettled (Fulfilled cols)"
    by simp
  from t1 o have 1: "snd (step ?c (Rerender create_open env2)) = [GetColumnMetadata]"
    by simp
  from t2 b have 2: "GetColumnMetadata \<notin> set (snd (step ?d (Change ''last_name'' typed_text)))"
    by blast
  from t3 r have 3: "dynamicColumns (cur_state (fst (step ?d
        (ColumnsSettled (Rejected ''network down''))))) = []"
    by simp
  from 1 2 3 show ?thesis
    by blast
qed


end
